theory Spec2Isabelle
  imports
    Complex_Main
    "HOL-Library.Char_ord"
    "HOL-Library.List_Lexorder"
    "HOL-Library.Log_Nat"
    "HOL-Library.Sublist"
begin

section \<open>Text\<close>

text \<open>
  A Python \<open>str\<close> is modelled as a \<^typ>\<open>string\<close>: the list of its characters, each
  \<^typ>\<open>char\<close> standing for the code point of the same number (U+0000 to U+00FF).
\<close>

abbreviation LF :: char where "LF \<equiv> CHR 0x0A"
abbreviation CR :: char where "CR \<equiv> CHR 0x0D"
abbreviation comma :: char where "comma \<equiv> CHR '',''"
abbreviation apostrophe :: char where "apostrophe \<equiv> CHR 0x27"

text \<open>
  \<open>str.isspace\<close> on one character. Below U+0100 the white space characters are
  TAB, LF, VT, FF, CR (9 to 13), the separators FS, GS, RS, US (28 to 31), the space (32),
  NEL (0x85) and the no-break space (0xA0).
\<close>

definition isspace :: "char \<Rightarrow> bool" where
  "isspace c =
     (let n = (of_char c :: nat)
      in (9 \<le> n \<and> n \<le> 13) \<or> (28 \<le> n \<and> n \<le> 32) \<or> n = 133 \<or> n = 160)"

text \<open>\<open>s.strip()\<close>: leading and trailing white space removed.\<close>

definition strip :: "string \<Rightarrow> string" where
  "strip s = rev (dropWhile isspace (rev (dropWhile isspace s)))"

text \<open>
  \<open>s.split(sep)\<close> for a one-character separator: every occurrence splits, empty
  pieces are kept, and the result is never empty (\<open>''.split(',') == ['']\<close>).
\<close>

fun str_split :: "char \<Rightarrow> string \<Rightarrow> string list" where
  "str_split sep [] = [[]]"
| "str_split sep (c # cs) =
     (if c = sep then [] # str_split sep cs
      else (case str_split sep cs of
              [] \<Rightarrow> [[c]]
            | w # ws \<Rightarrow> (c # w) # ws))"

text \<open>
  \<open>open(filepath, 'r')\<close> reads in universal-newlines mode: \<open>\r\n\<close> and a lone
  \<open>\r\<close> arrive as \<open>\n\<close>.
\<close>

fun universal_newlines :: "string \<Rightarrow> string" where
  "universal_newlines [] = []"
| "universal_newlines [c] = (if c = CR then [LF] else [c])"
| "universal_newlines (c # d # ds) =
     (if c = CR \<and> d = LF then LF # universal_newlines ds
      else if c = CR then LF # universal_newlines (d # ds)
      else c # universal_newlines (d # ds))"

text \<open>
  \<open>f.readlines()\<close>: the text cut after every \<open>\n\<close>; each line keeps its \<open>\n\<close>, the
  last line has none when the text does not end with one, and an empty text has no line.
\<close>

fun readlines :: "string \<Rightarrow> string list" where
  "readlines [] = []"
| "readlines (c # cs) =
     (if c = LF then [c] # readlines cs
      else (case readlines cs of
              [] \<Rightarrow> [[c]]
            | l # ls \<Rightarrow> (c # l) # ls))"

text \<open>
  The exceptions that leave a function of the module: the builtins raise \<open>ValueError\<close>
  and \<open>ZeroDivisionError\<close>, \<open>sys.exit(n)\<close> raises \<open>SystemExit\<close>, and \<open>OutputError\<close>
  stands for what a write to standard output raises when it fails
  (\<open>UnicodeEncodeError\<close> for a text the stream cannot encode, \<open>BrokenPipeError\<close>, ...).
\<close>

datatype py_error = ValueError | ZeroDivisionError | OutputError | SystemExit nat

text \<open>
  Standard output is the text written so far. Whether a write succeeds is for the stream
  to say: \<open>con out s\<close> holds when writing \<open>s\<close> after \<open>out\<close> succeeds. A statement that
  prints takes the text written so far and returns the text written after it, with the
  value it returns or the exception it raises.
\<close>

type_synonym console = "string \<Rightarrow> string \<Rightarrow> bool"

definition stdout_write :: "console \<Rightarrow> string \<Rightarrow> string \<Rightarrow> string \<times> (py_error + unit)" where
  "stdout_write con s out = (if con out s then (out @ s, Inr ()) else (out, Inl OutputError))"

text \<open>Running \<open>f\<close> after a statement, unless the statement raised.\<close>

definition and_then ::
  "string \<times> (py_error + 'a) \<Rightarrow> ('a \<Rightarrow> string \<Rightarrow> string \<times> (py_error + 'b))
     \<Rightarrow> string \<times> (py_error + 'b)" where
  "and_then r f = (case r of (out, Inl e) \<Rightarrow> (out, Inl e) | (out, Inr x) \<Rightarrow> f x out)"

text \<open>\<open>print(s)\<close> writes \<open>s\<close> and then the newline.\<close>

definition print :: "console \<Rightarrow> string \<Rightarrow> string \<Rightarrow> string \<times> (py_error + unit)" where
  "print con s out = and_then (stdout_write con s out) (\<lambda>u out1. stdout_write con [LF] out1)"

section \<open>Reading the data file\<close>

text \<open>
  A record is a \<open>Dict[str, str]\<close>: a finite map from field names to values.
  \<open>dict(pairs)\<close> stores the pairs from left to right, so a later pair with the same key
  replaces the earlier value.
\<close>

type_synonym str_dict = "string \<rightharpoonup> string"

definition dict :: "(string \<times> string) list \<Rightarrow> str_dict" where
  "dict pairs = fold (\<lambda>(k, v) d. d(k \<mapsto> v)) pairs Map.empty"

text \<open>
  What opening and reading a path gives: the decoded text, or the exception raised.
  \<open>FileNotFoundError\<close> has a handler of its own; every other exception \<open>e\<close> that the
  \<open>except Exception\<close> clause catches (a permission or decoding error, a directory, ...)
  is \<open>OtherException\<close> with \<open>str(e)\<close>.
\<close>

datatype io_exception = FileNotFoundError | OtherException string

type_synonym filesystem = "string \<Rightarrow> io_exception + string"

text \<open>The data rows: \<open>for line in lines[1:]\<close>, with \<open>records\<close> the list built so far.\<close>

fun read_rows :: "string list \<Rightarrow> string list \<Rightarrow> str_dict list \<Rightarrow> str_dict list" where
  "read_rows headers [] records = records"
| "read_rows headers (line # lines) records =
     (if strip line \<noteq> [] then
        (let values = map strip (str_split comma line);
             r = dict (zip headers values)
         in read_rows headers lines (records @ [r]))
      else read_rows headers lines records)"

text \<open>
  \<open>read_data_file\<close>. Nothing in the \<open>try\<close> block prints; each handler prints one
  line and returns the empty list, and an exception that its \<open>print\<close> raises is caught
  by no one and leaves the function.
\<close>

definition read_data_file ::
  "console \<Rightarrow> filesystem \<Rightarrow> string \<Rightarrow> string \<Rightarrow> string \<times> (py_error + str_dict list)" where
  "read_data_file con fs filepath out =
     (case fs filepath of
        Inl FileNotFoundError \<Rightarrow>
          and_then
            (print con (''Error: File '' @ [apostrophe] @ filepath @ [apostrophe] @ '' not found'') out)
            (\<lambda>u out1. (out1, Inr []))
      | Inl (OtherException e) \<Rightarrow>
          and_then (print con (''Error reading file: '' @ e) out) (\<lambda>u out1. (out1, Inr []))
      | Inr text \<Rightarrow>
          (case readlines (universal_newlines text) of
             [] \<Rightarrow> (out, Inr [])
           | first # rest \<Rightarrow>
               (let headers = map strip (str_split comma first)
                in (out, Inr (read_rows headers rest [])))))"

section \<open>Filtering\<close>

text \<open>
  \<open>record.get(category_field)\<close> is \<open>None\<close> for a missing key, and \<open>None\<close> is not
  equal to any \<open>str\<close>.
\<close>

definition filter_by_category :: "str_dict list \<Rightarrow> string \<Rightarrow> string \<Rightarrow> str_dict list" where
  "filter_by_category data category_field category_value =
     filter (\<lambda>r. r category_field = Some category_value) data"

section \<open>Floating-point numbers\<close>

text \<open>
  A Python \<open>float\<close> is an IEEE 754 binary64 number. \<open>Finite s m\<close> is the finite number
  of sign \<open>s\<close> (\<open>True\<close> for minus) and magnitude \<open>m\<close>, so that \<open>Finite True 0\<close> is
  \<open>-0.0\<close>; the magnitudes that occur are the binary64 ones, since every operation
  rounds its exact result with \<open>round64\<close>.
\<close>

datatype pyfloat = Finite bool rat | Infinity bool | NaN

definition signed :: "bool \<Rightarrow> rat \<Rightarrow> rat" where
  "signed s m = (if s then - m else m)"

definition pow2 :: "int \<Rightarrow> rat" where
  "pow2 k = (if 0 \<le> k then 2 ^ nat k else 1 / 2 ^ nat (- k))"

text \<open>The integer nearest to \<open>x\<close>, the even one of the two when \<open>x\<close> is halfway.\<close>

definition round_half_even :: "rat \<Rightarrow> int" where
  "round_half_even x =
     (let f = \<lfloor>x\<rfloor>; d = x - of_int f
      in if d < 1 / 2 then f
         else if 1 / 2 < d then f + 1
         else if even f then f else f + 1)"

text \<open>For \<open>0 < a\<close>, the exponent \<open>k\<close> with \<open>2 ^ k \<le> a < 2 ^ (k + 1)\<close>.\<close>

definition ilog2 :: "rat \<Rightarrow> int" where
  "ilog2 a =
     (let (p, q) = quotient_of a; k = bitlen p - bitlen q
      in if pow2 k \<le> a then k else k - 1)"

text \<open>
  Rounding a magnitude to binary64, to nearest and ties to even: 53 significant bits,
  the spacing never below \<open>2 ^ - 1074\<close> (subnormal numbers), and infinity from
  \<open>2 ^ 1024\<close> on.
\<close>

definition round64 :: "bool \<Rightarrow> rat \<Rightarrow> pyfloat" where
  "round64 s a =
     (if a = 0 then Finite s 0
      else let e = max (ilog2 a - 52) (- 1074);
               r = of_int (round_half_even (a / pow2 e)) * pow2 e
           in if 1024 \<le> ilog2 r then Infinity s else Finite s r)"

text \<open>\<open>a + b\<close>. An exact sum of zero is \<open>-0.0\<close> only when both operands are.\<close>

fun float_add :: "pyfloat \<Rightarrow> pyfloat \<Rightarrow> pyfloat" where
  "float_add NaN b = NaN"
| "float_add a NaN = NaN"
| "float_add (Infinity s) (Infinity t) = (if s = t then Infinity s else NaN)"
| "float_add (Infinity s) (Finite t b) = Infinity s"
| "float_add (Finite s a) (Infinity t) = Infinity t"
| "float_add (Finite s a) (Finite t b) =
     (let r = signed s a + signed t b
      in if r = 0 then Finite (s \<and> t) 0 else round64 (r < 0) \<bar>r\<bar>)"

text \<open>\<open>- a\<close>, \<open>abs(a)\<close> and \<open>a - b\<close>, which is \<open>a + (- b)\<close>.\<close>

fun float_neg :: "pyfloat \<Rightarrow> pyfloat" where
  "float_neg NaN = NaN"
| "float_neg (Infinity s) = Infinity (\<not> s)"
| "float_neg (Finite s a) = Finite (\<not> s) a"

fun float_abs :: "pyfloat \<Rightarrow> pyfloat" where
  "float_abs NaN = NaN"
| "float_abs (Infinity s) = Infinity False"
| "float_abs (Finite s a) = Finite False a"

definition float_sub :: "pyfloat \<Rightarrow> pyfloat \<Rightarrow> pyfloat" where
  "float_sub a b = float_add a (float_neg b)"

text \<open>\<open>a / b\<close>: Python raises \<open>ZeroDivisionError\<close> for a zero divisor, whatever \<open>a\<close> is.\<close>

fun float_truediv :: "pyfloat \<Rightarrow> pyfloat \<Rightarrow> py_error + pyfloat" where
  "float_truediv a (Finite t b) =
     (if b = 0 then Inl ZeroDivisionError
      else Inr (case a of
                  NaN \<Rightarrow> NaN
                | Infinity s \<Rightarrow> Infinity (s \<noteq> t)
                | Finite s x \<Rightarrow> round64 (s \<noteq> t) (x / b)))"
| "float_truediv a (Infinity t) =
     Inr (case a of
            NaN \<Rightarrow> NaN
          | Infinity s \<Rightarrow> NaN
          | Finite s x \<Rightarrow> Finite (s \<noteq> t) 0)"
| "float_truediv a NaN = Inr NaN"

text \<open>\<open>a < b\<close> and \<open>a <= b\<close>: false as soon as one side is NaN; the two zeros are equal.\<close>

fun float_lt :: "pyfloat \<Rightarrow> pyfloat \<Rightarrow> bool" where
  "float_lt NaN b = False"
| "float_lt a NaN = False"
| "float_lt (Infinity s) (Infinity t) = (s \<and> \<not> t)"
| "float_lt (Infinity s) (Finite t b) = s"
| "float_lt (Finite s a) (Infinity t) = (\<not> t)"
| "float_lt (Finite s a) (Finite t b) = (signed s a < signed t b)"

fun float_le :: "pyfloat \<Rightarrow> pyfloat \<Rightarrow> bool" where
  "float_le NaN b = False"
| "float_le a NaN = False"
| "float_le (Infinity s) (Infinity t) = (s \<or> \<not> t)"
| "float_le (Infinity s) (Finite t b) = s"
| "float_le (Finite s a) (Infinity t) = (\<not> t)"
| "float_le (Finite s a) (Finite t b) = (signed s a \<le> signed t b)"

text \<open>
  \<open>float(n)\<close> for the length of a list. The conversion is exact below \<open>2 ^ 53\<close>, and no
  list is that long (its references alone would take 64 PiB).
\<close>

definition float_of_nat :: "nat \<Rightarrow> pyfloat" where
  "float_of_nat n = Finite False (of_nat n)"

subsection \<open>\<open>float(s)\<close> for a string\<close>

text \<open>
  The white space that \<open>float\<close> drops around the number: the ASCII characters TAB, LF,
  VT, FF, CR and space, and the white space beyond ASCII (NEL and the no-break space
  below U+0100). Unlike \<open>str.strip\<close> it keeps the separators FS, GS, RS and US.
\<close>

definition float_space :: "char \<Rightarrow> bool" where
  "float_space c =
     (let n = (of_char c :: nat)
      in (9 \<le> n \<and> n \<le> 13) \<or> n = 32 \<or> n = 133 \<or> n = 160)"

definition float_strip :: "string \<Rightarrow> string" where
  "float_strip s = rev (dropWhile float_space (rev (dropWhile float_space s)))"

definition isdigit :: "char \<Rightarrow> bool" where
  "isdigit c = (CHR ''0'' \<le> c \<and> c \<le> CHR ''9'')"

definition digit_value :: "char \<Rightarrow> nat" where
  "digit_value c = of_char c - 48"

definition decimal :: "string \<Rightarrow> nat" where
  "decimal ds = foldl (\<lambda>n c. 10 * n + digit_value c) 0 ds"

definition ascii_lower :: "char \<Rightarrow> char" where
  "ascii_lower c =
     (if CHR ''A'' \<le> c \<and> c \<le> CHR ''Z'' then char_of (of_char c + 32 :: nat) else c)"

text \<open>
  An underscore is allowed only between two digits. \<open>prev\<close> is the character before,
  NUL at the start.
\<close>

fun underscores_ok :: "char \<Rightarrow> string \<Rightarrow> bool" where
  "underscores_ok prev [] = (prev \<noteq> CHR ''_'')"
| "underscores_ok prev (c # cs) =
     ((if c = CHR ''_'' then isdigit prev else (prev = CHR ''_'' \<longrightarrow> isdigit c))
      \<and> underscores_ok c cs)"

text \<open>The exponent part: nothing, or \<open>e\<close> or \<open>E\<close>, an optional sign and digits.\<close>

definition parse_exponent :: "string \<Rightarrow> int option" where
  "parse_exponent r =
     (case r of
        [] \<Rightarrow> Some 0
      | c # cs \<Rightarrow>
          if c = CHR ''e'' \<or> c = CHR ''E'' then
            (let (eneg, ds) =
                   (case cs of
                      [] \<Rightarrow> (False, cs)
                    | d # ds \<Rightarrow>
                        if d = CHR ''-'' then (True, ds)
                        else if d = CHR ''+'' then (False, ds)
                        else (False, cs))
             in if ds \<noteq> [] \<and> list_all isdigit ds
                then Some (if eneg then - int (decimal ds) else int (decimal ds))
                else None)
          else None)"

definition scale10 :: "rat \<Rightarrow> int \<Rightarrow> rat" where
  "scale10 m e = (if 0 \<le> e then m * 10 ^ nat e else m / 10 ^ nat (- e))"

text \<open>
  An unsigned decimal literal: digits, an optional point and digits (one of the two digit
  runs may be empty, not both), an optional exponent. Its value is rounded to the nearest
  binary64 number.
\<close>

definition parse_decimal :: "bool \<Rightarrow> string \<Rightarrow> pyfloat option" where
  "parse_decimal neg u =
     (let ip = takeWhile isdigit u;
          r1 = dropWhile isdigit u;
          (fp, r2) =
            (case r1 of
               [] \<Rightarrow> ([], r1)
             | c # cs \<Rightarrow>
                 if c = CHR ''.'' then (takeWhile isdigit cs, dropWhile isdigit cs)
                 else ([], r1))
      in if ip = [] \<and> fp = [] then None
         else (case parse_exponent r2 of
                 None \<Rightarrow> None
               | Some e \<Rightarrow>
                   Some (round64 neg
                     (scale10 (of_nat (decimal (ip @ fp))) (e - int (length fp))))))"

text \<open>
  \<open>float(s)\<close>: \<open>None\<close> stands for the \<open>ValueError\<close>. Surrounding white space is
  dropped; after an optional sign come \<open>inf\<close>, \<open>infinity\<close> or \<open>nan\<close> in any letter
  case, or a decimal literal.
\<close>

definition py_float :: "string \<Rightarrow> pyfloat option" where
  "py_float s =
     (if \<not> underscores_ok (CHR 0x00) s then None
      else let t = float_strip (filter (\<lambda>c. c \<noteq> CHR ''_'') s);
               (neg, u) =
                 (case t of
                    [] \<Rightarrow> (False, t)
                  | c # cs \<Rightarrow>
                      if c = CHR ''-'' then (True, cs)
                      else if c = CHR ''+'' then (False, cs)
                      else (False, t));
               w = map ascii_lower u
           in if w = ''inf'' \<or> w = ''infinity'' then Some (Infinity neg)
              else if w = ''nan'' then Some NaN
              else parse_decimal neg u)"

section \<open>Statistics\<close>

text \<open>
  The builtins \<open>min\<close> and \<open>max\<close> keep the first item and replace it by a later one that
  is smaller (greater); on an empty list they raise \<open>ValueError\<close>.
\<close>

fun min_loop :: "pyfloat \<Rightarrow> pyfloat list \<Rightarrow> pyfloat" where
  "min_loop best [] = best"
| "min_loop best (item # items) =
     (if float_lt item best then min_loop item items else min_loop best items)"

fun max_loop :: "pyfloat \<Rightarrow> pyfloat list \<Rightarrow> pyfloat" where
  "max_loop best [] = best"
| "max_loop best (item # items) =
     (if float_lt best item then max_loop item items else max_loop best items)"

definition py_min :: "pyfloat list \<Rightarrow> py_error + pyfloat" where
  "py_min values = (case values of [] \<Rightarrow> Inl ValueError | first # rest \<Rightarrow> Inr (min_loop first rest))"

definition py_max :: "pyfloat list \<Rightarrow> py_error + pyfloat" where
  "py_max values = (case values of [] \<Rightarrow> Inl ValueError | first # rest \<Rightarrow> Inr (max_loop first rest))"

text \<open>
  The builtin \<open>sum\<close> starts from the integer 0 and adds the items from the left. CPython
  before 3.12 does just that (\<open>Plain\<close>). From 3.12 on (\<open>Compensated\<close>) it adds the
  first item to 0 and then, for floats, carries beside the running total \<open>hi\<close> the sum
  \<open>lo\<close> of the rounding errors of its additions (Neumaier's summation), which it adds at
  the end when it is finite and not zero.
\<close>

datatype sum_algorithm = Plain | Compensated

fun cs_add :: "pyfloat \<times> pyfloat \<Rightarrow> pyfloat \<Rightarrow> pyfloat \<times> pyfloat" where
  "cs_add (hi, lo) x =
     (let t = float_add hi x
      in (t, float_add lo
               (if float_le (float_abs x) (float_abs hi)
                then float_add (float_sub hi t) x
                else float_add (float_sub x t) hi)))"

fun cs_to_double :: "pyfloat \<times> pyfloat \<Rightarrow> pyfloat" where
  "cs_to_double (hi, Finite s c) = (if c \<noteq> 0 then float_add hi (Finite s c) else hi)"
| "cs_to_double (hi, lo) = hi"

fun py_sum :: "sum_algorithm \<Rightarrow> pyfloat list \<Rightarrow> pyfloat" where
  "py_sum Plain values = foldl float_add (Finite False 0) values"
| "py_sum Compensated [] = Finite False 0"
| "py_sum Compensated (first # rest) =
     cs_to_double (foldl cs_add (float_add (Finite False 0) first, Finite False 0) rest)"

declare py_sum.simps [simp del]

text \<open>
  The loop over \<open>data\<close>, with \<open>values\<close> the list built so far: a record without the
  field, or whose value \<open>float\<close> rejects, adds nothing.
\<close>

fun collect_values :: "string \<Rightarrow> str_dict list \<Rightarrow> pyfloat list \<Rightarrow> pyfloat list" where
  "collect_values numeric_field [] values = values"
| "collect_values numeric_field (r # data) values =
     (case r numeric_field of
        None \<Rightarrow> collect_values numeric_field data values
      | Some s \<Rightarrow>
          (case py_float s of
             None \<Rightarrow> collect_values numeric_field data values
           | Some x \<Rightarrow> collect_values numeric_field data (values @ [x])))"

text \<open>\<open>calculate_statistics\<close>, run by an interpreter whose \<open>sum\<close> is \<open>alg\<close>.\<close>

definition calculate_statistics ::
  "sum_algorithm \<Rightarrow> str_dict list \<Rightarrow> string \<Rightarrow> py_error + (pyfloat \<times> pyfloat \<times> pyfloat)" where
  "calculate_statistics alg data numeric_field =
     (let values = collect_values numeric_field data []
      in if values = [] then Inr (Finite False 0, Finite False 0, Finite False 0)
         else (case py_min values of
                 Inl e \<Rightarrow> Inl e
               | Inr min_val \<Rightarrow>
                   (case py_max values of
                      Inl e \<Rightarrow> Inl e
                    | Inr max_val \<Rightarrow>
                        (case float_truediv (py_sum alg values) (float_of_nat (length values)) of
                           Inl e \<Rightarrow> Inl e
                         | Inr avg_val \<Rightarrow> Inr (min_val, max_val, avg_val)))))"

section \<open>The command line\<close>








section \<open>The quantities the properties speak of\<close>

text \<open>The lines of a file as \<open>read_data_file\<close> sees them, and its header.\<close>

definition file_lines :: "string \<Rightarrow> string list" where
  "file_lines text = readlines (universal_newlines text)"

definition header :: "string \<Rightarrow> string list" where
  "header text =
     (case file_lines text of [] \<Rightarrow> [] | first # rest \<Rightarrow> map strip (str_split comma first))"

text \<open>A line is blank when nothing is left of it after trimming.\<close>

definition blank :: "string \<Rightarrow> bool" where
  "blank line = (strip line = [])"

text \<open>The non-blank lines after the header line, in the order of the file.\<close>

definition data_lines :: "string \<Rightarrow> string list" where
  "data_lines text = filter (\<lambda>line. \<not> blank line) (tl (file_lines text))"

definition row_values :: "string \<Rightarrow> string list" where
  "row_values line = map strip (str_split comma line)"

text \<open>
  The values that count for a field: for each record that has the field and whose value
  \<open>float\<close> accepts, the number it gives, in the order of the records.
\<close>

definition coerced_values :: "str_dict list \<Rightarrow> string \<Rightarrow> pyfloat list" where
  "coerced_values data field =
     List.map_filter (\<lambda>r. case r field of None \<Rightarrow> None | Some s \<Rightarrow> py_float s) data"


section \<open>Sample inputs\<close>

definition sample_text :: string where
  "sample_text =
     ''amount , category'' @ [CR, LF] @ ''10,x,zz'' @ [LF, LF] @ ''  '' @ [CR] @ '' 20 ''"


definition ascii_console :: console where
  "ascii_console out s = list_all (\<lambda>c. (of_char c :: nat) < 128) s"

definition cafe_csv :: string where
  "cafe_csv = ''caf'' @ [CHR 0xE9] @ ''.csv''"

definition sample_fs :: filesystem where
  "sample_fs p =
     (if p = ''data.csv'' then Inr sample_text
      else if p = ''header.csv'' then Inr (''amount,category'' @ [LF])
      else if p = ''empty.csv'' then Inr []
      else if p = ''accent.csv'' then Inr (''category'' @ [LF, CHR 0xE9, LF])
      else if p = ''locked.csv'' then Inl (OtherException ''[Errno 13] Permission denied'')
      else Inl FileNotFoundError)"

definition sample_records :: "str_dict list" where
  "sample_records =
     [[''cat'' \<mapsto> ''a''], [''cat'' \<mapsto> ''b''], [''cat'' \<mapsto> ''a'', ''n'' \<mapsto> ''1''],
      [''cat'' \<mapsto> ''A''], [''cat'' \<mapsto> '' a''], [''other'' \<mapsto> ''a'']]"

definition tenths :: "str_dict list" where
  "tenths = [[''amount'' \<mapsto> ''0.1''], [''amount'' \<mapsto> ''0.1''], [''amount'' \<mapsto> ''0.1'']]"

definition nan_then_one :: "str_dict list" where
  "nan_then_one = [[''amount'' \<mapsto> ''nan''], [''amount'' \<mapsto> ''1'']]"

definition sample_amounts :: "str_dict list" where
  "sample_amounts =
     [[''amount'' \<mapsto> ''3''], [''name'' \<mapsto> ''x''], [''amount'' \<mapsto> ''-1.5''],
      [''amount'' \<mapsto> ''oops''], [''amount'' \<mapsto> ''4.5'']]"

definition not_numbers :: "str_dict list" where
  "not_numbers = [[''amount'' \<mapsto> ''abc''], [''name'' \<mapsto> ''1''], [''amount'' \<mapsto> ''1,5'']]"

section \<open>Facts about the loader\<close>

lemma dict_fold_map_of:
  "fold (\<lambda>(k, v) d. d(k \<mapsto> v)) pairs m = m ++ map_of (rev pairs)"
proof (induction pairs arbitrary: m)
  case Nil
  show ?case by simp
next
  case (Cons p ps)
  obtain k v where p: "p = (k, v)" by (cases p)
  have "fold (\<lambda>(k, v) d. d(k \<mapsto> v)) (p # ps) m = fold (\<lambda>(k, v) d. d(k \<mapsto> v)) ps (m(k \<mapsto> v))"
    by (simp add: p)
  also have "\<dots> = (m(k \<mapsto> v)) ++ map_of (rev ps)"
    by (rule Cons.IH)
  also have "\<dots> = m ++ map_of (rev (p # ps))"
    by (simp add: p map_add_def fun_eq_iff split: option.splits)
  finally show ?case .
qed

lemma dict_map_of: "dict pairs = map_of (rev pairs)"
  by (simp add: dict_def dict_fold_map_of)

lemma dom_dict_zip: "dom (dict (zip hs vs)) = set (take (length vs) hs)"
proof -
  have "dom (dict (zip hs vs)) = set (map fst (zip hs vs))"
    by (simp add: dict_map_of dom_map_of_conv_image_fst)
  also have "map fst (zip hs vs) = take (length vs) hs"
    by (simp add: map_fst_zip_take min_def)
  finally show ?thesis .
qed



lemma read_rows_map_filter:
  "read_rows hs lines acc =
     acc @ map (\<lambda>line. dict (zip hs (row_values line))) (filter (\<lambda>line. \<not> blank line) lines)"
  by (induction lines arbitrary: acc) (simp_all add: blank_def row_values_def Let_def)

lemma read_data_file_text:
  assumes "fs path = Inr text"
  shows "read_data_file con fs path out =
           (out, Inr (map (\<lambda>line. dict (zip (header text) (row_values line))) (data_lines text)))"
  using assms
  by (simp add: read_data_file_def header_def data_lines_def file_lines_def
      read_rows_map_filter split: list.splits)

section \<open>Properties of the loader\<close>



lemma print_accepted:
  "con out s \<Longrightarrow> con (out @ s) [LF] \<Longrightarrow> print con s out = (out @ s @ [LF], Inr ())"
  by (simp add: print_def stdout_write_def and_then_def)

lemma print_refused: "\<not> con out s \<Longrightarrow> print con s out = (out, Inl OutputError)"
  by (simp add: print_def stdout_write_def and_then_def)

lemma print_outcomes:
  "print con s out = (out, Inl OutputError)
   \<or> print con s out = (out @ s, Inl OutputError)
   \<or> print con s out = (out @ s @ [LF], Inr ())"
  by (simp add: print_def stdout_write_def and_then_def)

lemma read_data_file_failure:
  assumes "fs path = Inl e"
  shows "snd (read_data_file con fs path out) = Inr [] \<or> snd (read_data_file con fs path out) = Inl OutputError"
proof (cases e)
  case FileNotFoundError
  with assms print_outcomes [of con "''Error: File '' @ [apostrophe] @ path @ [apostrophe] @ '' not found''" out]
  show ?thesis by (auto simp: read_data_file_def and_then_def)
next
  case (OtherException msg)
  with assms print_outcomes [of con "''Error reading file: '' @ msg" out]
  show ?thesis by (auto simp: read_data_file_def and_then_def)
qed

lemma sample_data_loaded:
  "read_data_file con sample_fs ''data.csv'' out
     = (out, Inr [[''amount'' \<mapsto> ''10'', ''category'' \<mapsto> ''x''], [''amount'' \<mapsto> ''20'']])"
  by (simp add: sample_fs_def sample_text_def read_data_file_def dict_def strip_def isspace_def)

text \<open>
  C2. The number of records that \<open>read_data_file\<close> returns for a readable file is the
  number of lines after the header line that are not blank after trimming, and the
  records are those of the non-blank lines, in the order of the file: a blank line gives
  no record. For a readable file the function returns and prints nothing.
\<close>

theorem load_counts_nonblank_rows:
  assumes "fs path = Inr text"
  shows "\<exists>records.
           read_data_file con fs path out = (out, Inr records)
           \<and> length records = length (filter (\<lambda>line. \<not> blank line) (tl (file_lines text)))
           \<and> records = map (\<lambda>line. dict (zip (header text) (row_values line))) (data_lines text)"
  using assms by (simp add: read_data_file_text data_lines_def)

theorem load_counts_nonblank_rows_witness:
  "sample_fs ''data.csv'' = Inr sample_text
   \<and> (\<exists>records.
         read_data_file ascii_console sample_fs ''data.csv'' [] = ([], Inr records)
         \<and> length records = length (filter (\<lambda>line. \<not> blank line) (tl (file_lines sample_text))))
   \<and> length (tl (file_lines sample_text)) = 4
   \<and> length (filter (\<lambda>line. \<not> blank line) (tl (file_lines sample_text))) = 2"
proof -
  have h: "sample_fs ''data.csv'' = Inr sample_text"
    by (simp add: sample_fs_def)
  have n: "tl (file_lines sample_text) = [''10,x,zz'' @ [LF], [LF], ''  '' @ [LF], '' 20 '']"
    by (simp add: file_lines_def sample_text_def)
  have b: "filter (\<lambda>line. \<not> blank line) [''10,x,zz'' @ [LF], [LF], ''  '' @ [LF], '' 20 '']
             = [''10,x,zz'' @ [LF], '' 20 '']"
    by (simp add: blank_def strip_def isspace_def)
  have l: "length (tl (file_lines sample_text)) = 4"
    unfolding n by simp
  have k: "length (filter (\<lambda>line. \<not> blank line) (tl (file_lines sample_text))) = 2"
    unfolding n b by simp
  from load_counts_nonblank_rows [of sample_fs "''data.csv''" sample_text ascii_console "[]", OF h]
  have "\<exists>records.
         read_data_file ascii_console sample_fs ''data.csv'' [] = ([], Inr records)
         \<and> length records = length (filter (\<lambda>line. \<not> blank line) (tl (file_lines sample_text)))"
    by blast
  with h l k show ?thesis by (intro conjI)
qed

text \<open>
  C5, as the code has it. When the path names no file, and when opening or reading it
  fails in any other way, \<open>read_data_file\<close> prints one line that reports the failure and
  returns the empty list, provided standard output takes the line; the only exception that
  can leave the function is the one its own \<open>print\<close> raises, and it never returns a
  record then. An empty file gives the empty list and prints nothing, whatever the stream.
\<close>

theorem load_failure_reported_when_printable:
  "(fs path = Inl FileNotFoundError
      \<and> con out (''Error: File '' @ [apostrophe] @ path @ [apostrophe] @ '' not found'')
      \<and> con (out @ ''Error: File '' @ [apostrophe] @ path @ [apostrophe] @ '' not found'') [LF]
    \<longrightarrow> read_data_file con fs path out
          = (out @ ''Error: File '' @ [apostrophe] @ path @ [apostrophe] @ '' not found'' @ [LF],
             Inr []))
   \<and> (fs path = Inl (OtherException e)
      \<and> con out (''Error reading file: '' @ e)
      \<and> con (out @ ''Error reading file: '' @ e) [LF]
    \<longrightarrow> read_data_file con fs path out = (out @ ''Error reading file: '' @ e @ [LF], Inr []))
   \<and> (\<forall>x. fs path = Inl x \<longrightarrow>
         snd (read_data_file con fs path out) = Inr []
         \<or> snd (read_data_file con fs path out) = Inl OutputError)
   \<and> (fs path = Inr [] \<longrightarrow> read_data_file con fs path out = (out, Inr []))"
proof (intro conjI impI allI)
  assume "fs path = Inl FileNotFoundError
      \<and> con out (''Error: File '' @ [apostrophe] @ path @ [apostrophe] @ '' not found'')
      \<and> con (out @ ''Error: File '' @ [apostrophe] @ path @ [apostrophe] @ '' not found'') [LF]"
  then show "read_data_file con fs path out
          = (out @ ''Error: File '' @ [apostrophe] @ path @ [apostrophe] @ '' not found'' @ [LF],
             Inr [])"
    using print_accepted [of con out "''Error: File '' @ [apostrophe] @ path @ [apostrophe] @ '' not found''"]
    by (simp add: read_data_file_def and_then_def)
next
  assume "fs path = Inl (OtherException e)
      \<and> con out (''Error reading file: '' @ e)
      \<and> con (out @ ''Error reading file: '' @ e) [LF]"
  then show "read_data_file con fs path out = (out @ ''Error reading file: '' @ e @ [LF], Inr [])"
    using print_accepted [of con out "''Error reading file: '' @ e"]
    by (simp add: read_data_file_def and_then_def)
next
  fix x assume "fs path = Inl x"
  then show "snd (read_data_file con fs path out) = Inr []
         \<or> snd (read_data_file con fs path out) = Inl OutputError"
    by (rule read_data_file_failure)
next
  assume "fs path = Inr []"
  then show "read_data_file con fs path out = (out, Inr [])"
    by (simp add: read_data_file_def)
qed

theorem load_failure_reported_when_printable_witness:
  "sample_fs ''missing.csv'' = Inl FileNotFoundError
   \<and> read_data_file ascii_console sample_fs ''missing.csv'' []
       = (''Error: File '' @ [apostrophe] @ ''missing.csv'' @ [apostrophe] @ '' not found'' @ [LF],
          Inr [])
   \<and> sample_fs ''locked.csv'' = Inl (OtherException ''[Errno 13] Permission denied'')
   \<and> read_data_file ascii_console sample_fs ''locked.csv'' []
       = (''Error reading file: [Errno 13] Permission denied'' @ [LF], Inr [])
   \<and> sample_fs ''empty.csv'' = Inr []
   \<and> read_data_file ascii_console sample_fs ''empty.csv'' [] = ([], Inr [])"
proof -
  have a: "sample_fs ''missing.csv'' = Inl FileNotFoundError"
    and b: "sample_fs ''locked.csv'' = Inl (OtherException ''[Errno 13] Permission denied'')"
    and c: "sample_fs ''empty.csv'' = Inr []"
    by (simp_all add: sample_fs_def)
  from load_failure_reported_when_printable
         [of sample_fs "''missing.csv''" ascii_console "[]" "[]"]
    load_failure_reported_when_printable
         [of sample_fs "''locked.csv''" ascii_console "[]" "''[Errno 13] Permission denied''"]
    load_failure_reported_when_printable [of sample_fs "''empty.csv''" ascii_console "[]" "[]"]
    a b c
  show ?thesis by (simp add: ascii_console_def)
qed

theorem load_failure_print_raises_counterexample:
  "sample_fs cafe_csv = Inl FileNotFoundError
   \<and> \<not> ascii_console [] (''Error: File '' @ [apostrophe] @ cafe_csv @ [apostrophe] @ '' not found'')
   \<and> read_data_file ascii_console sample_fs cafe_csv [] = ([], Inl OutputError)"
proof -
  have f: "sample_fs cafe_csv = Inl FileNotFoundError"
    by (simp add: sample_fs_def cafe_csv_def)
  have n: "\<not> ascii_console [] (''Error: File '' @ [apostrophe] @ cafe_csv @ [apostrophe] @ '' not found'')"
    by (simp add: ascii_console_def cafe_csv_def)
  from print_refused [of ascii_console "[]" "''Error: File '' @ [apostrophe] @ cafe_csv @ [apostrophe] @ '' not found''", OF n] f have "read_data_file ascii_console sample_fs cafe_csv [] = ([], Inl OutputError)"
    by (simp add: read_data_file_def and_then_def)
  with f n show ?thesis by (intro conjI)
qed



text \<open>
  C8. Every key of every record that \<open>read_data_file\<close> returns is a token of the header
  of the file read, and so is every key of a record that \<open>filter_by_category\<close> keeps of
  them.
\<close>

theorem record_keys_within_header:
  "\<forall>records. snd (read_data_file con fs path out) = Inr records \<longrightarrow>
     (\<forall>r \<in> set records. \<exists>text. fs path = Inr text \<and> dom r \<subseteq> set (header text))
     \<and> (\<forall>r \<in> set (filter_by_category records f v).
           \<exists>text. fs path = Inr text \<and> dom r \<subseteq> set (header text))"
proof (intro allI impI)
  fix records
  assume ret: "snd (read_data_file con fs path out) = Inr records"
  have keys: "\<exists>text. fs path = Inr text \<and> dom r \<subseteq> set (header text)"
    if "r \<in> set records" for r
  proof (cases "fs path")
    case (Inl e)
    from read_data_file_failure [of fs path e con out, OF this] ret that show ?thesis
      by auto
  next
    case (Inr content)
    with that ret obtain line where "r = dict (zip (header content) (row_values line))"
      by (auto simp: read_data_file_text)
    then have "dom r \<subseteq> set (header content)"
      by (simp add: dom_dict_zip set_take_subset)
    with Inr show ?thesis by simp
  qed
  then show "(\<forall>r \<in> set records. \<exists>text. fs path = Inr text \<and> dom r \<subseteq> set (header text))
     \<and> (\<forall>r \<in> set (filter_by_category records f v).
           \<exists>text. fs path = Inr text \<and> dom r \<subseteq> set (header text))"
    by (simp add: filter_by_category_def)
qed

theorem record_keys_within_header_witness:
  "sample_fs ''data.csv'' = Inr sample_text
   \<and> (\<exists>records.
         snd (read_data_file ascii_console sample_fs ''data.csv'' []) = Inr records
         \<and> records \<noteq> []
         \<and> dom (hd records) \<subseteq> set (header sample_text)
         \<and> filter_by_category records ''category'' ''x'' \<noteq> []
         \<and> dom (hd (filter_by_category records ''category'' ''x'')) \<subseteq> set (header sample_text))"
proof -
  obtain records
    where rs: "snd (read_data_file ascii_console sample_fs ''data.csv'' []) = Inr records"
      and eq: "records = [[''amount'' \<mapsto> ''10'', ''category'' \<mapsto> ''x''], [''amount'' \<mapsto> ''20'']]"
    by (simp add: sample_data_loaded)
  have f: "sample_fs ''data.csv'' = Inr sample_text"
    by (simp add: sample_fs_def)
  have n: "records \<noteq> []"
    by (simp add: eq)
  have m: "filter_by_category records ''category'' ''x'' \<noteq> []"
    by (simp add: eq filter_by_category_def)
  from n have a: "hd records \<in> set records"
    by simp
  from m have b: "hd (filter_by_category records ''category'' ''x'')
                    \<in> set (filter_by_category records ''category'' ''x'')"
    by simp
  from record_keys_within_header
         [of ascii_console sample_fs "''data.csv''" "[]" "''category''" "''x''"] rs a b f
  have "dom (hd records) \<subseteq> set (header sample_text)"
    and "dom (hd (filter_by_category records ''category'' ''x'')) \<subseteq> set (header sample_text)"
    by auto
  with rs n m have "\<exists>records.
         snd (read_data_file ascii_console sample_fs ''data.csv'' []) = Inr records
         \<and> records \<noteq> []
         \<and> dom (hd records) \<subseteq> set (header sample_text)
         \<and> filter_by_category records ''category'' ''x'' \<noteq> []
         \<and> dom (hd (filter_by_category records ''category'' ''x'')) \<subseteq> set (header sample_text)"
    by blast
  with f show ?thesis by (intro conjI)
qed

text \<open>
  C3. \<open>filter_by_category\<close> keeps, in the order of the data, the records whose value of
  the field is the target string itself, each as often as it occurs, and no other. A
  record without the field is never kept, not even for the empty target string; when no
  record matches, and on the empty list, the result is the empty list.
\<close>

theorem filter_by_category_exact_matches:
  "subseq (filter_by_category data f v) data
   \<and> (\<forall>r. r \<in> set (filter_by_category data f v) \<longleftrightarrow> r \<in> set data \<and> r f = Some v)
   \<and> (\<forall>r. count_list (filter_by_category data f v) r
            = (if r f = Some v then count_list data r else 0))
   \<and> (\<forall>r \<in> set data. r f = None \<longrightarrow> r \<notin> set (filter_by_category data f v))
   \<and> ((\<forall>r \<in> set data. r f \<noteq> Some v) \<longrightarrow> filter_by_category data f v = [])
   \<and> filter_by_category [] f v = []"
proof -
  have "count_list (filter (\<lambda>r. r f = Some v) data) r
          = (if r f = Some v then count_list data r else 0)" for r
    by (induction data) auto
  then show ?thesis
    by (auto simp: filter_by_category_def filter_empty_conv)
qed

theorem filter_by_category_exact_matches_witness:
  "filter_by_category sample_records ''cat'' ''a'' = [sample_records ! 0, sample_records ! 2]
   \<and> (sample_records ! 5) ''cat'' = None
   \<and> filter_by_category sample_records ''cat'' [] = []
   \<and> filter_by_category sample_records ''cat'' ''zzz'' = []
   \<and> subseq [sample_records ! 0, sample_records ! 2] sample_records"
  using filter_by_category_exact_matches [of sample_records "''cat''" "''a''"]
    filter_by_category_exact_matches [of sample_records "''cat''" "''zzz''"]
  by (simp add: sample_records_def filter_by_category_def)

text \<open>
  C9. Filtering the result of \<open>filter_by_category\<close> again, by the same field and value,
  changes nothing.
\<close>

theorem filter_by_category_idempotent:
  "filter_by_category (filter_by_category data f v) f v = filter_by_category data f v"
  by (simp add: filter_by_category_def)

section \<open>Facts about the rounding\<close>

text \<open>
  What the rounding is built from does what its description says: \<open>ilog2\<close> brackets
  its argument between two powers of two, \<open>round_half_even\<close> is within one half of its
  argument, and the result of \<open>round64\<close> is within half a spacing of the magnitude.
\<close>

lemma pow2_powi: "pow2 k = 2 powi k"
  by (simp add: pow2_def power_int_def field_simps)

lemma pow2_pos: "0 < pow2 k"
  by (simp add: pow2_powi)

lemma pow2_add: "pow2 (i + j) = pow2 i * pow2 j"
  by (simp add: pow2_powi power_int_add)

lemma pow2_mono: "i \<le> j \<Longrightarrow> pow2 i \<le> pow2 j"
  by (simp add: pow2_powi power_int_increasing)

lemma round_half_even_nearest: "\<bar>of_int (round_half_even x) - x\<bar> \<le> 1 / 2"
proof -
  have "of_int \<lfloor>x\<rfloor> \<le> x" and "x < of_int \<lfloor>x\<rfloor> + 1"
    by linarith+
  then show ?thesis
    unfolding round_half_even_def Let_def
    by (simp add: abs_le_iff)
qed

lemma bitlen_pow2_bounds:
  assumes "0 < p"
  shows "pow2 (bitlen p - 1) \<le> of_int p" and "of_int p < pow2 (bitlen p)"
proof -
  from bitlen_bounds [OF assms]
  have a: "2 ^ nat (bitlen p - 1) \<le> p" and b: "p < 2 ^ nat (bitlen p)" by simp_all
  have pos: "1 \<le> bitlen p" using assms by (simp add: bitlen_alt_def)
  have "(of_int (2 ^ nat (bitlen p - 1)) :: rat) \<le> of_int p"
    using a by (simp only: of_int_le_iff)
  then show "pow2 (bitlen p - 1) \<le> of_int p"
    using pos by (simp add: pow2_def)
  have "(of_int p :: rat) < of_int (2 ^ nat (bitlen p))"
    using b by (simp only: of_int_less_iff)
  then show "of_int p < pow2 (bitlen p)"
    using pos by (simp add: pow2_def)
qed

lemma ilog2_bounds:
  assumes "0 < a"
  shows "pow2 (ilog2 a) \<le> a \<and> a < pow2 (ilog2 a + 1)"
proof -
  obtain p q where pq: "quotient_of a = (p, q)" by (cases "quotient_of a")
  then have q: "0 < q" and a: "a = of_int p / of_int q"
    using quotient_of_denom_pos quotient_of_div by blast+
  with assms have p: "0 < p"
    by (simp add: zero_less_divide_iff)
  define k where "k = bitlen p - bitlen q"
  have up: "a < pow2 (k + 1)"
  proof -
    have "of_int p < pow2 (bitlen p)" by (rule bitlen_pow2_bounds [OF p])
    also have "\<dots> = pow2 (k + 1) * pow2 (bitlen q - 1)"
      by (simp add: k_def pow2_add [symmetric])
    also have "\<dots> \<le> pow2 (k + 1) * of_int q"
      using bitlen_pow2_bounds(1) [OF q] pow2_pos [of "k + 1"] by simp
    finally show ?thesis
      using q by (simp add: a pos_divide_less_eq)
  qed
  have low: "pow2 (k - 1) \<le> a"
  proof -
    have "pow2 (k - 1) * of_int q \<le> pow2 (k - 1) * pow2 (bitlen q)"
      using bitlen_pow2_bounds(2) [OF q] pow2_pos [of "k - 1"] by simp
    also have "\<dots> = pow2 (bitlen p - 1)"
      by (simp add: k_def pow2_add [symmetric])
    also have "\<dots> \<le> of_int p" by (rule bitlen_pow2_bounds [OF p])
    finally show ?thesis
      using q by (simp add: a pos_le_divide_eq)
  qed
  show ?thesis
  proof (cases "pow2 k \<le> a")
    case True
    with up pq show ?thesis by (simp add: ilog2_def k_def)
  next
    case False
    with low pq show ?thesis by (simp add: ilog2_def k_def)
  qed
qed

lemma round64_error:
  assumes "round64 s a = Finite t r"
  shows "t = s \<and> \<bar>r - a\<bar> \<le> pow2 (max (ilog2 a - 52) (- 1074)) / 2"
proof (cases "a = 0")
  case True
  with assms show ?thesis
    by (simp add: round64_def less_imp_le [OF pow2_pos])
next
  case False
  define e where "e = max (ilog2 a - 52) (- 1074)"
  define n where "n = round_half_even (a / pow2 e)"
  from assms False have r: "r = of_int n * pow2 e" and t: "t = s"
    by (auto simp: round64_def Let_def e_def n_def split: if_splits)
  have "\<bar>of_int n - a / pow2 e\<bar> * pow2 e \<le> 1 / 2 * pow2 e"
    unfolding n_def
    by (rule mult_right_mono [OF round_half_even_nearest less_imp_le [OF pow2_pos]])
  also have "\<bar>of_int n - a / pow2 e\<bar> * pow2 e = \<bar>(of_int n - a / pow2 e) * pow2 e\<bar>"
    using pow2_pos [of e] by (simp add: abs_mult)
  also have "(of_int n - a / pow2 e) * pow2 e = r - a"
    using pow2_pos [of e] by (simp add: r field_simps)
  finally show ?thesis
    using t by (simp add: e_def)
qed

section \<open>Facts about the statistics\<close>

lemma collect_values_append:
  "collect_values field data acc = acc @ coerced_values data field"
  by (induction data arbitrary: acc)
    (simp_all add: coerced_values_def map_filter_simps split: option.splits)

lemma float_le_refl: "x \<noteq> NaN \<Longrightarrow> float_le x x"
  by (cases x) simp_all

lemma float_le_trans: "float_le x y \<Longrightarrow> float_le y z \<Longrightarrow> float_le x z"
  by (cases x; cases y; cases z) auto

lemma float_lt_imp_le: "float_lt x y \<Longrightarrow> float_le x y"
  by (cases x; cases y) auto

lemma float_not_lt_imp_le: "x \<noteq> NaN \<Longrightarrow> y \<noteq> NaN \<Longrightarrow> \<not> float_lt x y \<Longrightarrow> float_le y x"
  by (cases x; cases y) auto

lemma min_loop_in_set: "min_loop best items \<in> set (best # items)"
  by (induction items arbitrary: best) auto

lemma max_loop_in_set: "max_loop best items \<in> set (best # items)"
  by (induction items arbitrary: best) auto

lemma min_loop_lower_bound:
  assumes "NaN \<notin> set (best # items)" and "v \<in> set (best # items)"
  shows "float_le (min_loop best items) v"
  using assms
proof (induction items arbitrary: best v)
  case Nil
  then show ?case by (simp add: float_le_refl)
next
  case (Cons item items)
  show ?case
  proof (cases "float_lt item best")
    case True
    have "float_le (min_loop item items) item"
      using Cons.IH [of item item] Cons.prems(1) by simp
    with True have "float_le (min_loop item items) best"
      by (blast intro: float_le_trans float_lt_imp_le)
    with True Cons.IH [of item v] Cons.prems show ?thesis by auto
  next
    case False
    then have "float_le best item"
      using Cons.prems(1) by (auto intro!: float_not_lt_imp_le)
    moreover have "float_le (min_loop best items) best"
      using Cons.IH [of best best] Cons.prems(1) by simp
    ultimately have "float_le (min_loop best items) item"
      by (blast intro: float_le_trans)
    with False Cons.IH [of best v] Cons.prems show ?thesis by auto
  qed
qed

lemma max_loop_upper_bound:
  assumes "NaN \<notin> set (best # items)" and "v \<in> set (best # items)"
  shows "float_le v (max_loop best items)"
  using assms
proof (induction items arbitrary: best v)
  case Nil
  then show ?case by (simp add: float_le_refl)
next
  case (Cons item items)
  show ?case
  proof (cases "float_lt best item")
    case True
    have "float_le item (max_loop item items)"
      using Cons.IH [of item item] Cons.prems(1) by simp
    with True have "float_le best (max_loop item items)"
      by (blast intro: float_le_trans float_lt_imp_le)
    with True Cons.IH [of item v] Cons.prems show ?thesis by auto
  next
    case False
    then have "float_le item best"
      using Cons.prems(1) by (auto intro!: float_not_lt_imp_le)
    moreover have "float_le best (max_loop best items)"
      using Cons.IH [of best best] Cons.prems(1) by simp
    ultimately have "float_le item (max_loop best items)"
      by (blast intro: float_le_trans)
    with False Cons.IH [of best v] Cons.prems show ?thesis by auto
  qed
qed

lemma float_truediv_length:
  "0 < n \<Longrightarrow> \<exists>q. float_truediv x (float_of_nat n) = Inr q"
  by (simp add: float_of_nat_def)

lemma calculate_statistics_values:
  assumes "coerced_values data field = v # vs"
  shows "\<exists>avg. float_truediv (py_sum alg (v # vs)) (float_of_nat (length (v # vs))) = Inr avg
           \<and> calculate_statistics alg data field = Inr (min_loop v vs, max_loop v vs, avg)"
proof -
  obtain avg where "float_truediv (py_sum alg (v # vs)) (float_of_nat (length (v # vs))) = Inr avg"
    using float_truediv_length [of "length (v # vs)" "py_sum alg (v # vs)"] by auto
  then show ?thesis
    using assms
    by (simp add: calculate_statistics_def collect_values_append py_min_def py_max_def)
qed

lemma calculate_statistics_no_values:
  assumes "coerced_values data field = []"
  shows "calculate_statistics alg data field = Inr (Finite False 0, Finite False 0, Finite False 0)"
  using assms by (simp add: calculate_statistics_def collect_values_append)


lemma coerced_values_empty_iff:
  "coerced_values data field = [] \<longleftrightarrow> (\<forall>r \<in> set data. \<forall>s. r field = Some s \<longrightarrow> py_float s = None)"
  by (induction data) (auto simp: coerced_values_def map_filter_simps split: option.splits)

section \<open>Properties of the statistics\<close>

lemma py_float_samples:
  "py_float ''10'' = Some (Finite False 10)"
  "py_float ''abc'' = None"
  "py_float ''20'' = Some (Finite False 20)"
  by code_simp+

lemma ten_and_twenty:
  "py_min [Finite False 10, Finite False 20] = Inr (Finite False 10)"
  "py_max [Finite False 10, Finite False 20] = Inr (Finite False 20)"
  "float_truediv (py_sum alg [Finite False 10, Finite False 20]) (float_of_nat (Suc (Suc 0)))
     = Inr (Finite False 15)"
proof -
  show "py_min [Finite False 10, Finite False 20] = Inr (Finite False 10)"
    and "py_max [Finite False 10, Finite False 20] = Inr (Finite False 20)"
    by code_simp+
  have "float_truediv (py_sum Plain [Finite False 10, Finite False 20]) (float_of_nat (Suc (Suc 0)))
          = Inr (Finite False 15)"
    and "float_truediv (py_sum Compensated [Finite False 10, Finite False 20])
           (float_of_nat (Suc (Suc 0))) = Inr (Finite False 15)"
    by code_simp+
  then show "float_truediv (py_sum alg [Finite False 10, Finite False 20])
               (float_of_nat (Suc (Suc 0))) = Inr (Finite False 15)"
    by (cases alg) simp_all
qed

text \<open>
  C4. When no record has a value of the field that \<open>float\<close> accepts (the list of records
  is empty, no record has the field, or no value of it is a number), the result is
  \<open>(0.0, 0.0, 0.0)\<close>, returned normally: nothing is raised and nothing is divided.
\<close>

theorem statistics_zero_when_nothing_coerces:
  assumes "\<forall>r \<in> set data. \<forall>s. r field = Some s \<longrightarrow> py_float s = None"
  shows "calculate_statistics alg data field = Inr (Finite False 0, Finite False 0, Finite False 0)"
  using assms by (simp add: calculate_statistics_no_values coerced_values_empty_iff)

theorem statistics_zero_when_nothing_coerces_witness:
  "\<not> (\<exists>r \<in> set not_numbers. \<exists>s. r ''amount'' = Some s \<and> py_float s \<noteq> None)
   \<and> calculate_statistics Plain not_numbers ''amount''
       = Inr (Finite False 0, Finite False 0, Finite False 0)
   \<and> calculate_statistics Compensated not_numbers ''amount''
       = Inr (Finite False 0, Finite False 0, Finite False 0)
   \<and> calculate_statistics Compensated [] ''amount''
       = Inr (Finite False 0, Finite False 0, Finite False 0)
   \<and> calculate_statistics Compensated not_numbers ''price''
       = Inr (Finite False 0, Finite False 0, Finite False 0)"
proof -
  have a: "py_float ''abc'' = None" and b: "py_float ''1,5'' = None"
    by code_simp+
  have h: "\<forall>r \<in> set not_numbers. \<forall>s. r ''amount'' = Some s \<longrightarrow> py_float s = None"
    by (simp add: not_numbers_def a b)
  have k: "\<forall>r \<in> set not_numbers. \<forall>s. r ''price'' = Some s \<longrightarrow> py_float s = None"
    by (simp add: not_numbers_def)
  from statistics_zero_when_nothing_coerces [OF h, of Plain]
    statistics_zero_when_nothing_coerces [OF h, of Compensated]
    statistics_zero_when_nothing_coerces [OF k, of Compensated]
    statistics_zero_when_nothing_coerces [of "[]" "''amount''" Compensated] h
  show ?thesis by auto
qed

text \<open>
  C1, as the code has it. The values that count are those of the records that have the
  field and whose value \<open>float\<close> accepts, which takes \<open>nan\<close>, \<open>inf\<close> and \<open>infinity\<close>
  besides the decimal literals; the other records are passed over. When there is such a
  value, the result is \<open>min\<close> of these values, \<open>max\<close> of them and their float sum divided
  by their number; the first two are the least and the greatest of the values when none of
  the values is NaN. For the values \<open>10\<close>, \<open>abc\<close>, \<open>20\<close> of a field the result is
  \<open>(10.0, 20.0, 15.0)\<close>.
\<close>

theorem statistics_of_coerced_values:
  "(coerced_values data field \<noteq> [] \<longrightarrow>
      (\<exists>mn mx avg.
         calculate_statistics alg data field = Inr (mn, mx, avg)
         \<and> py_min (coerced_values data field) = Inr mn
         \<and> py_max (coerced_values data field) = Inr mx
         \<and> float_truediv (py_sum alg (coerced_values data field))
               (float_of_nat (length (coerced_values data field))) = Inr avg
         \<and> (NaN \<notin> set (coerced_values data field) \<longrightarrow>
               mn \<in> set (coerced_values data field)
               \<and> mx \<in> set (coerced_values data field)
               \<and> (\<forall>v \<in> set (coerced_values data field). float_le mn v \<and> float_le v mx))))
   \<and> calculate_statistics alg [[field \<mapsto> ''10''], [field \<mapsto> ''abc''], [field \<mapsto> ''20'']] field
       = Inr (Finite False 10, Finite False 20, Finite False 15)"
proof (intro conjI impI)
  assume "coerced_values data field \<noteq> []"
  then obtain v vs where vs: "coerced_values data field = v # vs"
    by (cases "coerced_values data field") auto
  from calculate_statistics_values [OF vs, of alg] obtain avg
    where avg: "float_truediv (py_sum alg (v # vs)) (float_of_nat (length (v # vs))) = Inr avg"
      and res: "calculate_statistics alg data field = Inr (min_loop v vs, max_loop v vs, avg)"
    by auto
  have "NaN \<notin> set (v # vs) \<longrightarrow>
          min_loop v vs \<in> set (v # vs) \<and> max_loop v vs \<in> set (v # vs)
          \<and> (\<forall>w \<in> set (v # vs). float_le (min_loop v vs) w \<and> float_le w (max_loop v vs))"
    using min_loop_in_set [of v vs] max_loop_in_set [of v vs]
      min_loop_lower_bound [of v vs] max_loop_upper_bound [of v vs]
    by blast
  with avg res show "\<exists>mn mx avg.
         calculate_statistics alg data field = Inr (mn, mx, avg)
         \<and> py_min (coerced_values data field) = Inr mn
         \<and> py_max (coerced_values data field) = Inr mx
         \<and> float_truediv (py_sum alg (coerced_values data field))
               (float_of_nat (length (coerced_values data field))) = Inr avg
         \<and> (NaN \<notin> set (coerced_values data field) \<longrightarrow>
               mn \<in> set (coerced_values data field)
               \<and> mx \<in> set (coerced_values data field)
               \<and> (\<forall>v \<in> set (coerced_values data field). float_le mn v \<and> float_le v mx))"
    unfolding vs by (simp add: py_min_def py_max_def)
next
  have vs: "coerced_values [[field \<mapsto> ''10''], [field \<mapsto> ''abc''], [field \<mapsto> ''20'']] field
              = [Finite False 10, Finite False 20]"
    by (simp add: coerced_values_def map_filter_simps py_float_samples)
  from calculate_statistics_values [OF vs, of alg] ten_and_twenty(1,2) ten_and_twenty(3) [of alg]
  show "calculate_statistics alg [[field \<mapsto> ''10''], [field \<mapsto> ''abc''], [field \<mapsto> ''20'']] field
          = Inr (Finite False 10, Finite False 20, Finite False 15)"
    by (auto simp: py_min_def py_max_def)
qed

theorem statistics_of_coerced_values_witness:
  "coerced_values sample_amounts ''amount''
     = [Finite False 3, Finite True (3 / 2), Finite False (9 / 2)]
   \<and> calculate_statistics Compensated sample_amounts ''amount''
       = Inr (Finite True (3 / 2), Finite False (9 / 2), Finite False 2)
   \<and> float_le (Finite True (3 / 2)) (Finite False 3)
   \<and> float_le (Finite False 3) (Finite False (9 / 2))"
proof -
  have vs: "coerced_values sample_amounts ''amount''
              = [Finite False 3, Finite True (3 / 2), Finite False (9 / 2)]"
    by code_simp
  have ops: "py_min [Finite False 3, Finite True (3 / 2), Finite False (9 / 2)]
               = Inr (Finite True (3 / 2))"
    "py_max [Finite False 3, Finite True (3 / 2), Finite False (9 / 2)] = Inr (Finite False (9 / 2))"
    "float_truediv (py_sum Compensated [Finite False 3, Finite True (3 / 2), Finite False (9 / 2)])
       (float_of_nat (Suc (Suc (Suc 0)))) = Inr (Finite False 2)"
    by code_simp+
  from statistics_of_coerced_values [of sample_amounts "''amount''" Compensated]
  show ?thesis
    unfolding vs by (auto simp: ops)
qed

theorem statistics_nan_counterexample:
  "coerced_values nan_then_one ''amount'' = [NaN, Finite False 1]
   \<and> calculate_statistics Plain nan_then_one ''amount'' = Inr (NaN, NaN, NaN)
   \<and> calculate_statistics Compensated nan_then_one ''amount'' = Inr (NaN, NaN, NaN)
   \<and> \<not> float_le NaN (Finite False 1)
   \<and> \<not> float_le (Finite False 1) NaN"
proof -
  have "coerced_values nan_then_one ''amount'' = [NaN, Finite False 1]"
    by code_simp
  moreover have "calculate_statistics Plain nan_then_one ''amount'' = Inr (NaN, NaN, NaN)"
    by code_simp
  moreover have "calculate_statistics Compensated nan_then_one ''amount'' = Inr (NaN, NaN, NaN)"
    by code_simp
  ultimately show ?thesis by simp
qed

text \<open>
  C10, as the code has it. When at least one value counts and none of the values is NaN,
  the first component of the result is at most the second and both are among the values.
  The third component is the float sum divided by the number of values; rounding can put
  it outside the two.
\<close>

theorem statistics_min_le_max:
  assumes "coerced_values data field \<noteq> []" and "NaN \<notin> set (coerced_values data field)"
  shows "\<exists>mn mx avg.
           calculate_statistics alg data field = Inr (mn, mx, avg)
           \<and> float_le mn mx
           \<and> mn \<in> set (coerced_values data field)
           \<and> mx \<in> set (coerced_values data field)
           \<and> float_truediv (py_sum alg (coerced_values data field))
                 (float_of_nat (length (coerced_values data field))) = Inr avg"
proof -
  from assms(1) obtain v vs where vs: "coerced_values data field = v # vs"
    by (cases "coerced_values data field") auto
  from calculate_statistics_values [OF vs, of alg] obtain avg
    where avg: "float_truediv (py_sum alg (v # vs)) (float_of_nat (length (v # vs))) = Inr avg"
      and res: "calculate_statistics alg data field = Inr (min_loop v vs, max_loop v vs, avg)"
    by auto
  have nan: "NaN \<notin> set (v # vs)"
    using assms(2) by (simp add: vs)
  have "float_le (min_loop v vs) v" and "float_le v (max_loop v vs)"
    using min_loop_lower_bound [OF nan, of v] max_loop_upper_bound [OF nan, of v] by simp_all
  then have "float_le (min_loop v vs) (max_loop v vs)"
    by (rule float_le_trans)
  with avg res min_loop_in_set [of v vs] max_loop_in_set [of v vs] show ?thesis
    unfolding vs by simp
qed

theorem statistics_min_le_max_witness:
  "coerced_values sample_amounts ''amount'' \<noteq> []
   \<and> NaN \<notin> set (coerced_values sample_amounts ''amount'')
   \<and> (\<exists>mn mx avg.
         calculate_statistics Plain sample_amounts ''amount'' = Inr (mn, mx, avg)
         \<and> float_le mn mx
         \<and> mn \<in> set (coerced_values sample_amounts ''amount'')
         \<and> mx \<in> set (coerced_values sample_amounts ''amount''))"
proof -
  have vs: "coerced_values sample_amounts ''amount''
              = [Finite False 3, Finite True (3 / 2), Finite False (9 / 2)]"
    by code_simp
  have a: "coerced_values sample_amounts ''amount'' \<noteq> []"
    and b: "NaN \<notin> set (coerced_values sample_amounts ''amount'')"
    by (simp_all add: vs)
  from statistics_min_le_max [OF a b, of Plain] a b show ?thesis by blast
qed

theorem average_outside_counterexample:
  "coerced_values tenths ''amount''
     = [Finite False (3602879701896397 / 2 ^ 55), Finite False (3602879701896397 / 2 ^ 55),
        Finite False (3602879701896397 / 2 ^ 55)]
   \<and> calculate_statistics Plain tenths ''amount''
       = Inr (Finite False (3602879701896397 / 2 ^ 55), Finite False (3602879701896397 / 2 ^ 55),
              Finite False (7205759403792795 / 2 ^ 56))
   \<and> calculate_statistics Compensated tenths ''amount''
       = Inr (Finite False (3602879701896397 / 2 ^ 55), Finite False (3602879701896397 / 2 ^ 55),
              Finite False (7205759403792795 / 2 ^ 56))
   \<and> \<not> float_le (Finite False (7205759403792795 / 2 ^ 56)) (Finite False (3602879701896397 / 2 ^ 55))
   \<and> calculate_statistics Plain [[''amount'' \<mapsto> ''nan'']] ''amount'' = Inr (NaN, NaN, NaN)
   \<and> calculate_statistics Compensated [[''amount'' \<mapsto> ''nan'']] ''amount'' = Inr (NaN, NaN, NaN)
   \<and> \<not> float_le NaN NaN"
proof -
  have "coerced_values tenths ''amount''
     = [Finite False (3602879701896397 / 2 ^ 55), Finite False (3602879701896397 / 2 ^ 55),
        Finite False (3602879701896397 / 2 ^ 55)]"
    by code_simp
  moreover have "calculate_statistics Plain tenths ''amount''
       = Inr (Finite False (3602879701896397 / 2 ^ 55), Finite False (3602879701896397 / 2 ^ 55),
              Finite False (7205759403792795 / 2 ^ 56))"
    by code_simp
  moreover have "calculate_statistics Compensated tenths ''amount''
       = Inr (Finite False (3602879701896397 / 2 ^ 55), Finite False (3602879701896397 / 2 ^ 55),
              Finite False (7205759403792795 / 2 ^ 56))"
    by code_simp
  moreover have "\<not> float_le (Finite False (7205759403792795 / 2 ^ 56))
                    (Finite False (3602879701896397 / 2 ^ 55))"
    by (simp add: signed_def)
  moreover have "calculate_statistics Plain [[''amount'' \<mapsto> ''nan'']] ''amount'' = Inr (NaN, NaN, NaN)"
    by code_simp
  moreover have "calculate_statistics Compensated [[''amount'' \<mapsto> ''nan'']] ''amount''
                   = Inr (NaN, NaN, NaN)"
    by code_simp
  ultimately show ?thesis by simp
qed

section \<open>Properties of the command line\<close>


















end
